theory Spec2Isabelle
  imports Main "HOL-Library.Word"
begin

unbundle bit_operations_syntax

section \<open>Key derivation\<close>

text \<open>
  \<^verbatim>\<open>linear_congruent_generator\<close> of \<^verbatim>\<open>cstring_obfuscator.hpp\<close> works on
  \<^verbatim>\<open>unsigned long long\<close> (a 64-bit word, \<open>+\<close> and \<open>*\<close> wrap) and recurses on an
  \<^verbatim>\<open>unsigned\<close> round counter (a 32-bit word). The macro \<^verbatim>\<open>TBX_XSTR_SEED\<close> can be
  redefined by the user before the header is included, so the seed is a parameter of the
  model; its default is \<open>3421\<close>.

  In C++ \<^verbatim>\<open>%\<close> binds tighter than \<^verbatim>\<open>+\<close>: the remainder is taken of the product only,
  and the constant is added afterwards.
\<close>

definition TBX_XSTR_SEED :: "64 word" where
  "TBX_XSTR_SEED = 3421"

function linear_congruent_generator :: "64 word \<Rightarrow> 32 word \<Rightarrow> 64 word" where
  "linear_congruent_generator seed rounds =
     1013904223 +
       (1664525 * (if rounds > 0 then linear_congruent_generator seed (rounds - 1)
                   else seed)) mod 0xFFFFFFFF"
  by pat_completeness auto
termination
  by (relation "measure (\<lambda>(seed, rounds). unat rounds)")
     (auto simp: word_gt_0 unat_minus_one unat_gt_0)

declare linear_congruent_generator.simps [simp del]

text \<open>\<^verbatim>\<open>#define Random() linear_congruent_generator(10)\<close>\<close>

definition Random :: "64 word \<Rightarrow> 64 word" where
  "Random seed = linear_congruent_generator seed 10"

text \<open>\<^verbatim>\<open>#define XSTR_RANDOM_NUMBER(Min, Max) (Min + (Random() % (Max - Min + 1)))\<close>\<close>

definition XSTR_RANDOM_NUMBER :: "64 word \<Rightarrow> 64 word \<Rightarrow> 64 word \<Rightarrow> 64 word" where
  "XSTR_RANDOM_NUMBER seed lo hi = lo + (Random seed mod (hi - lo + 1))"

definition XORKEY :: "64 word \<Rightarrow> 64 word" where
  "XORKEY seed = XSTR_RANDOM_NUMBER seed 0 0xFF"

text \<open>
  One application of the update inside \<^verbatim>\<open>linear_congruent_generator\<close>: the returned
  expression with the previous state in place of the conditional operand.
\<close>

definition lcg_step :: "64 word \<Rightarrow> 64 word" where
  "lcg_step state = 1013904223 + (1664525 * state) mod 0xFFFFFFFF"

text \<open>
  The same recursion with no termination argument and with \<^verbatim>\<open>%\<close> as a checked
  operation (a zero divisor has no defined result in C++): \<open>None\<close> stands for a call that
  does not return a value.
\<close>

definition checked_mod :: "64 word \<Rightarrow> 64 word \<Rightarrow> 64 word option" where
  "checked_mod a b = (if b = 0 then None else Some (a mod b))"

partial_function (option)
  linear_congruent_generator_run :: "64 word \<Rightarrow> 32 word \<Rightarrow> 64 word option" where
  "linear_congruent_generator_run seed rounds =
     Option.bind
       (if rounds > 0 then linear_congruent_generator_run seed (rounds - 1) else Some seed)
       (\<lambda>prev. Option.bind (checked_mod (1664525 * prev) 0xFFFFFFFF)
          (\<lambda>r. Some (1013904223 + r)))"

declare linear_congruent_generator_run.simps [code]

text \<open>
  The recurrence as the specification words it, on unbounded naturals, for comparison
  with the code: \<open>state\<^sub>0 = seed\<close> and
  \<open>state\<^sub>n = (1013904223 + 1664525 \<times> state\<^sub>n\<^sub>-\<^sub>1) mod 0xFFFFFFFF\<close>, the output for
  \<open>rounds\<close> being \<open>state\<^bsub>rounds\<^esub>\<close>.
\<close>

fun spec_state :: "nat \<Rightarrow> nat \<Rightarrow> nat" where
  "spec_state seed 0 = seed"
| "spec_state seed (Suc n) = (1013904223 + 1664525 * spec_state seed n) mod 0xFFFFFFFF"

section \<open>Character transform\<close>

text \<open>
  \<^verbatim>\<open>Char\<close> is a character type of some width \<open>LENGTH('a)\<close>: \<^verbatim>\<open>char\<close> (8 bits) for the
  narrow macros and \<^verbatim>\<open>wchar_t\<close> (16 or 32 bits, by platform) for the wide ones. In
  \<^verbatim>\<open>character ^ (static_cast<Char>(XORKEY) + index)\<close> both operands of \<^verbatim>\<open>+\<close> and of
  \<^verbatim>\<open>^\<close> undergo the usual arithmetic conversions to a 32-bit \<^verbatim>\<open>int\<close>
  (\<^verbatim>\<open>unsigned\<close> in \<^verbatim>\<open>decrypt\<close>, where the index is unsigned): a signed character type
  is sign-extended and an unsigned one zero-extended. Whether \<^verbatim>\<open>char\<close> and
  \<^verbatim>\<open>wchar_t\<close> are signed is implementation-defined, so it is a parameter. The result
  is converted back to \<^verbatim>\<open>Char\<close>, which keeps the low \<open>LENGTH('a)\<close> bits. 32-bit
  addition is modelled as wrapping.
\<close>

definition promote :: "bool \<Rightarrow> 'a::len word \<Rightarrow> 32 word" where
  "promote char_signed c = (if char_signed then scast c else ucast c)"

definition encrypt_character :: "bool \<Rightarrow> 64 word \<Rightarrow> 'a::len word \<Rightarrow> 32 word \<Rightarrow> 'a word" where
  "encrypt_character char_signed seed character index =
     ucast (promote char_signed character XOR
            (promote char_signed (ucast (XORKEY seed) :: 'a word) + index))"

section \<open>The obfuscated string\<close>

text \<open>
  \<^verbatim>\<open>template <unsigned size, typename Char> class Xor_string\<close> has the members
  \<^verbatim>\<open>_nb_chars\<close> and \<^verbatim>\<open>_string\<close>.
\<close>

record 'c Xor_string =
  nb_chars :: "32 word"
  string :: "'c list"

text \<open>
  The constructor's loop, with the buffer passed through:
  \<^verbatim>\<open>for (unsigned i = 0u; i < size; ++i) _string[i] = encrypt_character<Char>(string[i], i);\<close>
\<close>

function Xor_string_loop ::
  "bool \<Rightarrow> 64 word \<Rightarrow> 32 word \<Rightarrow> 'a::len word list \<Rightarrow> 32 word \<Rightarrow> 'a word list \<Rightarrow> 'a word list"
where
  "Xor_string_loop char_signed seed sz str i buf =
     (if i < sz
      then Xor_string_loop char_signed seed sz str (i + 1)
             (buf[unat i := encrypt_character char_signed seed (str ! unat i) i])
      else buf)"
  by pat_completeness auto
termination
  by (relation "measure (\<lambda>(char_signed, seed, sz, str, i, buf). unat sz - unat i)")
     (simp, simp, unat_arith)

declare Xor_string_loop.simps [simp del]

text \<open>
  The constructor: \<^verbatim>\<open>_nb_chars\<close> is \<^verbatim>\<open>size - 1\<close>, \<^verbatim>\<open>_string{}\<close> is zero-initialised,
  then the loop runs. An array of size zero is ill-formed, and reading the argument
  beyond its end has no defined behaviour (a build error in a constant expression), so
  neither yields an object.
\<close>

definition Xor_string_ctor ::
  "bool \<Rightarrow> 64 word \<Rightarrow> 32 word \<Rightarrow> 'a::len word list \<Rightarrow> 'a word Xor_string option"
where
  "Xor_string_ctor char_signed seed sz str =
     (if sz = 0 \<or> length str < unat sz then None
      else Some \<lparr>nb_chars = sz - 1,
                 string = Xor_string_loop char_signed seed sz str 0 (replicate (unat sz) 0)\<rparr>)"

text \<open>
  The loop of \<^verbatim>\<open>decrypt\<close>:
  \<^verbatim>\<open>for (unsigned t = 0; t < _nb_chars; t++) string[t] = string[t] ^ (static_cast<Char>(XORKEY) + t);\<close>
\<close>

function decrypt_loop ::
  "bool \<Rightarrow> 64 word \<Rightarrow> 32 word \<Rightarrow> 32 word \<Rightarrow> 'a::len word list \<Rightarrow> 'a word list"
where
  "decrypt_loop char_signed seed nb t str =
     (if t < nb
      then decrypt_loop char_signed seed nb (t + 1)
             (str[unat t := ucast (promote char_signed (str ! unat t) XOR
                                   (promote char_signed (ucast (XORKEY seed) :: 'a word) + t))])
      else str)"
  by pat_completeness auto
termination
  by (relation "measure (\<lambda>(char_signed, seed, nb, t, str). unat nb - unat t)")
     (simp, simp, unat_arith)

declare decrypt_loop.simps [simp del]

text \<open>
  \<^verbatim>\<open>decrypt\<close> mutates the buffer in place and returns a pointer to it: the model returns
  the object after the call, whose \<open>string\<close> is what the pointer shows. After the loop
  it stores \<^verbatim>\<open>'\0'\<close> at index \<^verbatim>\<open>_nb_chars\<close>.
\<close>

definition decrypt :: "bool \<Rightarrow> 64 word \<Rightarrow> 'a::len word Xor_string \<Rightarrow> 'a word Xor_string" where
  "decrypt char_signed seed x =
     x\<lparr>string := (decrypt_loop char_signed seed (nb_chars x) 0 (string x))
                    [unat (nb_chars x) := 0]\<rparr>"

section \<open>Facts about the key derivation\<close>

lemma lcg_unfold:
  "linear_congruent_generator seed rounds =
     lcg_step (if rounds > 0 then linear_congruent_generator seed (rounds - 1) else seed)"
  by (subst linear_congruent_generator.simps) (simp add: lcg_step_def)

lemma unat_pred:
  fixes rounds :: "32 word"
  assumes "rounds > 0"
  shows "unat (rounds - 1) = unat rounds - 1" and "unat rounds \<noteq> 0"
  using assms by (simp_all add: word_gt_0 unat_minus_one unat_gt_0)

text \<open>
  The returned value is not bounded by \<open>0xFFFFFFFF\<close>, since the constant is added after
  the remainder is taken: with the default seed, five rounds give \<open>4663527553\<close>.
\<close>

lemma lcg_above_modulus:
  "linear_congruent_generator TBX_XSTR_SEED 5 = 4663527553 \<and>
   (0xFFFFFFFF :: 64 word) < linear_congruent_generator TBX_XSTR_SEED 5"
  by (simp add: TBX_XSTR_SEED_def linear_congruent_generator.simps)

text \<open>
  C2, as stated, fails on the code. With the default seed \<open>3421\<close> and \<open>rounds = 10\<close> the
  specification's recurrence, applied ten times to the seed, gives \<open>1369855243\<close>, while
  \<^verbatim>\<open>linear_congruent_generator(10)\<close> returns \<open>4125016248\<close>: the base case
  \<^verbatim>\<open>rounds == 0\<close> already applies the update to the seed.
\<close>

theorem lcg_rounds_counterexample:
  "unat (linear_congruent_generator TBX_XSTR_SEED 10) \<noteq> spec_state (unat TBX_XSTR_SEED) 10"
proof -
  have ten: "(10::nat) = Suc (Suc (Suc (Suc (Suc (Suc (Suc (Suc (Suc (Suc 0)))))))))"
    by simp
  have "spec_state 3421 10 = 1369855243"
    unfolding ten by simp
  moreover have "linear_congruent_generator 3421 10 = 4125016248"
    by (simp add: linear_congruent_generator.simps)
  ultimately show ?thesis by (simp add: TBX_XSTR_SEED_def)
qed

text \<open>
  C2, amended: for every seed and every \<open>rounds\<close>, the generator applies its update
  \<open>rounds + 1\<close> times, starting from the seed (once in the base case \<open>rounds = 0\<close> and
  once more for each further round), and returns the last state; \<^verbatim>\<open>Random()\<close>, that is
  \<^verbatim>\<open>linear_congruent_generator(10)\<close>, is the state after eleven updates.
\<close>

theorem lcg_iterates:
  "linear_congruent_generator seed rounds = (lcg_step ^^ Suc (unat rounds)) seed \<and>
   Random seed = (lcg_step ^^ 11) seed"
proof -
  have iter: "linear_congruent_generator seed r = (lcg_step ^^ Suc (unat r)) seed" for r
  proof (induction "unat r" arbitrary: r)
    case 0
    then have "r = 0" by (simp add: unat_eq_0)
    then show ?case by (simp add: lcg_unfold [of seed 0])
  next
    case (Suc n)
    then have pos: "r > 0" by (metis unat_gt_0 zero_less_Suc word_gt_0)
    have "unat (r - 1) = n" using unat_pred(1) [OF pos] Suc.hyps(2) by simp
    then have "linear_congruent_generator seed (r - 1) = (lcg_step ^^ Suc n) seed"
      using Suc.hyps(1) [of "r - 1"] by simp
    then show ?case using pos Suc.hyps(2) [symmetric]
      by (subst lcg_unfold) simp
  qed
  have "Suc (unat (10 :: 32 word)) = 11" by simp
  then have "Random seed = (lcg_step ^^ 11) seed"
    unfolding Random_def using iter [of 10] by simp
  with iter show ?thesis by simp
qed

text \<open>
  C7: for every seed the derived key \<^verbatim>\<open>XORKEY\<close>, which is
  \<open>0 + (Random() mod (0xFF - 0 + 1))\<close>, lies in \<open>[0, 255]\<close>.
\<close>

theorem XORKEY_range:
  "XORKEY seed = 0 + (Random seed mod (0xFF - 0 + 1)) \<and> unat (XORKEY seed) \<le> 255"
proof -
  have "Random seed mod 256 < 256"
    by (rule word_mod_less_divisor) simp
  then have "XORKEY seed < 256"
    by (simp add: XORKEY_def XSTR_RANDOM_NUMBER_def)
  then have "unat (XORKEY seed) \<le> 255" by unat_arith
  then show ?thesis by (simp add: XORKEY_def XSTR_RANDOM_NUMBER_def)
qed

text \<open>
  C9: for every seed and every \<open>rounds\<close> the recursion of \<^verbatim>\<open>linear_congruent_generator\<close>
  returns a value: each call is on \<open>rounds - 1\<close> with \<open>rounds > 0\<close>, the chain ends at
  \<open>rounds = 0\<close>, and the divisor of \<^verbatim>\<open>%\<close> is the nonzero constant \<open>0xFFFFFFFF\<close>, so no
  step fails. The value is the one of the total function.
\<close>

theorem lcg_total:
  "linear_congruent_generator_run seed rounds = Some (linear_congruent_generator seed rounds)"
proof (induction "unat rounds" arbitrary: rounds)
  case 0
  then have "rounds = 0" by (simp add: unat_eq_0)
  then show ?case
    by (subst linear_congruent_generator_run.simps, subst linear_congruent_generator.simps)
       (simp add: checked_mod_def)
next
  case (Suc n)
  then have pos: "rounds > 0" by (metis unat_gt_0 zero_less_Suc word_gt_0)
  have "unat (rounds - 1) = n" using unat_pred(1) [OF pos] Suc.hyps(2) by simp
  then have "linear_congruent_generator_run seed (rounds - 1) =
             Some (linear_congruent_generator seed (rounds - 1))"
    using Suc.hyps(1) [of "rounds - 1"] by simp
  then show ?case using pos
    by (subst linear_congruent_generator_run.simps, subst linear_congruent_generator.simps)
       (simp add: checked_mod_def)
qed

section \<open>Facts about the character transform\<close>

text \<open>
  Converting a 32-bit sum or exclusive-or back to a character of at most 32 bits keeps
  its low bits, so the transform can be read at the character's own width.
\<close>

lemma ucast_down_add32:
  fixes a b :: "32 word"
  assumes "LENGTH('a::len) \<le> 32"
  shows "(ucast (a + b) :: 'a word) = ucast a + ucast b"
proof -
  have "(ucast (a + b) :: 'a word) = word_of_nat (unat (a + b))"
    by simp
  also have "\<dots> = word_of_nat (take_bit 32 (unat a + unat b))"
    by (simp add: unat_word_ariths take_bit_eq_mod)
  also have "\<dots> = word_of_nat (unat a + unat b)"
  proof -
    have "take_bit LENGTH('a) (take_bit 32 (unat a + unat b)) = take_bit LENGTH('a) (unat a + unat b)"
      using assms by (simp add: min_def)
    then show ?thesis by (simp only: word_of_nat_eq_iff)
  qed
  finally show ?thesis by simp
qed

lemma ucast_promote:
  assumes "LENGTH('a::len) \<le> 32"
  shows "(ucast (promote sg (c :: 'a word)) :: 'a word) = c"
  using assms
  by (auto simp: promote_def intro!: bit_word_eqI simp: bit_simps)

lemma ucast_xor32:
  "(ucast ((a :: 32 word) XOR b) :: 'a::len word) = ucast a XOR ucast b"
  by (auto intro!: bit_word_eqI simp: bit_simps)

lemma transform_eq:
  fixes c :: "'a::len word" and k :: "64 word" and i :: "32 word"
  assumes "LENGTH('a) \<le> 32"
  shows "(ucast (promote sg c XOR (promote sg (ucast k :: 'a word) + i)) :: 'a word)
         = c XOR word_of_nat (unat k + unat i)"
  using assms by (simp add: ucast_xor32 ucast_down_add32 ucast_promote)

lemma promote_indep:
  fixes c :: "'a::len word" and k :: "'a word" and i :: "32 word"
  shows "(ucast (promote sg c XOR (promote sg k + i)) :: 'a word)
         = ucast (promote sg' c XOR (promote sg' k + i))"
proof (cases "LENGTH('a) \<le> 32")
  case True
  then show ?thesis by (simp add: ucast_xor32 ucast_down_add32 ucast_promote)
next
  case False
  then have "(scast :: 'a word \<Rightarrow> 32 word) = ucast"
    by (intro down_cast_same [symmetric]) (simp add: is_down)
  then show ?thesis by (simp add: promote_def)
qed


section \<open>Facts about the two loops\<close>

lemma unat_plus1_less:
  fixes i sz :: "32 word"
  assumes "i < sz"
  shows "unat (i + 1) = Suc (unat i)"
  using assms by unat_arith

lemma length_Xor_string_loop:
  "length (Xor_string_loop sg seed sz str i buf) = length buf"
proof (induction sg seed sz str i buf rule: Xor_string_loop.induct)
  case (1 sg seed sz str i buf)
  then show ?case
    by (subst Xor_string_loop.simps) simp
qed

lemma nth_Xor_string_loop:
  assumes "j < length buf"
  shows "Xor_string_loop sg seed sz str i buf ! j =
           (if unat i \<le> j \<and> j < unat sz
            then encrypt_character sg seed (str ! j) (of_nat j) else buf ! j)"
  using assms
proof (induction sg seed sz str i buf rule: Xor_string_loop.induct)
  case (1 sg seed sz str i buf)
  show ?case
  proof (cases "i < sz")
    case True
    note suc = unat_plus1_less [OF True]
    have lt: "unat i < unat sz" using True by (simp add: word_less_nat_alt)
    have "Xor_string_loop sg seed sz str i buf ! j =
          Xor_string_loop sg seed sz str (i + 1)
            (buf[unat i := encrypt_character sg seed (str ! unat i) i]) ! j"
      using True by (subst Xor_string_loop.simps) simp
    also have "\<dots> = (if unat (i + 1) \<le> j \<and> j < unat sz
            then encrypt_character sg seed (str ! j) (of_nat j)
            else buf[unat i := encrypt_character sg seed (str ! unat i) i] ! j)"
      using "1.IH" [OF True] "1.prems" by simp
    also have "\<dots> = (if unat i \<le> j \<and> j < unat sz
            then encrypt_character sg seed (str ! j) (of_nat j) else buf ! j)"
    proof (cases "j = unat i")
      case True
      then show ?thesis using suc lt "1.prems" by simp
    next
      case False
      then show ?thesis using suc by auto
    qed
    finally show ?thesis .
  next
    case False
    then have "\<not> (unat i \<le> j \<and> j < unat sz)"
      by (auto simp: word_less_nat_alt)
    with False show ?thesis
      by (subst Xor_string_loop.simps) auto
  qed
qed

lemma length_decrypt_loop:
  "length (decrypt_loop sg seed nb t str) = length str"
proof (induction sg seed nb t str rule: decrypt_loop.induct)
  case (1 sg seed nb t str)
  then show ?case
    by (subst decrypt_loop.simps) simp
qed

lemma nth_decrypt_loop:
  fixes str :: "'a::len word list"
  assumes "j < length str"
  shows "decrypt_loop sg seed nb t str ! j =
           (if unat t \<le> j \<and> j < unat nb
            then ucast (promote sg (str ! j) XOR
                        (promote sg (ucast (XORKEY seed) :: 'a word) + of_nat j))
            else str ! j)"
  using assms
proof (induction sg seed nb t str rule: decrypt_loop.induct)
  case (1 sg seed nb t str)
  let ?e = "\<lambda>j. (ucast (promote sg (str ! j) XOR
                        (promote sg (ucast (XORKEY seed) :: 'a word) + of_nat j)) :: 'a word)"
  show ?case
  proof (cases "t < nb")
    case True
    note suc = unat_plus1_less [OF True]
    have lt: "unat t < unat nb" using True by (simp add: word_less_nat_alt)
    let ?str' = "str[unat t := ucast (promote sg (str ! unat t) XOR
                        (promote sg (ucast (XORKEY seed) :: 'a word) + t))]"
    have "decrypt_loop sg seed nb t str ! j = decrypt_loop sg seed nb (t + 1) ?str' ! j"
      using True by (subst decrypt_loop.simps) simp
    also have "\<dots> = (if unat (t + 1) \<le> j \<and> j < unat nb
            then ucast (promote sg (?str' ! j) XOR
                        (promote sg (ucast (XORKEY seed) :: 'a word) + of_nat j))
            else ?str' ! j)"
      using "1.IH" [OF True] "1.prems" by simp
    also have "\<dots> = (if unat t \<le> j \<and> j < unat nb then ?e j else str ! j)"
    proof (cases "j = unat t")
      case True
      then show ?thesis using suc lt "1.prems" by simp
    next
      case False
      then show ?thesis using suc by auto
    qed
    finally show ?thesis .
  next
    case False
    then have "\<not> (unat t \<le> j \<and> j < unat nb)"
      by (auto simp: word_less_nat_alt)
    with False show ?thesis
      by (subst decrypt_loop.simps) auto
  qed
qed


lemma encrypt_character_eq:
  fixes c :: "'a::len word"
  assumes "LENGTH('a) \<le> 32"
  shows "encrypt_character sg seed c i = c XOR word_of_nat (unat (XORKEY seed) + unat i)"
  unfolding encrypt_character_def using assms by (rule transform_eq)

lemma encrypt_character_signedness:
  "encrypt_character sg seed c i = encrypt_character sg' seed c i"
  unfolding encrypt_character_def by (rule promote_indep)

lemma unat_of_nat32:
  fixes sz :: "32 word"
  assumes "j < unat sz"
  shows "unat (of_nat j :: 32 word) = j"
proof -
  have "unat sz < 2 ^ 32" using unsigned_less [of sz] by simp
  with assms have "j < 2 ^ LENGTH(32)" by simp
  then show ?thesis by (simp add: unat_of_nat)
qed

section \<open>Facts about construction and decryption\<close>

lemma ctor_SomeD:
  assumes "Xor_string_ctor sg seed sz s = Some x"
  shows "sz \<noteq> 0" and "unat sz \<le> length s" and "nb_chars x = sz - 1"
    and "string x = Xor_string_loop sg seed sz s 0 (replicate (unat sz) 0)"
    and "length (string x) = unat sz" and "unat (nb_chars x) = unat sz - 1"
    and "0 < unat sz"
  using assms
  by (auto simp: Xor_string_ctor_def length_Xor_string_loop unat_minus_one unat_gt_0
           split: if_splits)

lemma ctor_nth:
  fixes s :: "'a::len word list"
  assumes "LENGTH('a) \<le> 32" and "Xor_string_ctor sg seed sz s = Some x" and "j < unat sz"
  shows "string x ! j = s ! j XOR word_of_nat (unat (XORKEY seed) + j)"
proof -
  have "string x ! j = encrypt_character sg seed (s ! j) (of_nat j)"
    using ctor_SomeD(4) [OF assms(2)] assms(3) by (simp add: nth_Xor_string_loop)
  then show ?thesis
    using assms(1) unat_of_nat32 [OF assms(3)] by (simp only: encrypt_character_eq)
qed

lemma decrypt_nth:
  fixes y :: "'a::len word Xor_string"
  assumes "LENGTH('a) \<le> 32" and "unat (nb_chars y) < length (string y)"
    and "j < unat (nb_chars y)"
  shows "string (decrypt sg seed y) ! j = string y ! j XOR word_of_nat (unat (XORKEY seed) + j)"
proof -
  have j: "j < length (string y)" using assms by simp
  have "string (decrypt sg seed y) ! j = decrypt_loop sg seed (nb_chars y) 0 (string y) ! j"
    using assms(3) by (simp add: decrypt_def)
  also have "\<dots> = ucast (promote sg (string y ! j) XOR
                        (promote sg (ucast (XORKEY seed) :: 'a word) + of_nat j))"
    using j assms(3) by (simp add: nth_decrypt_loop)
  also have "\<dots> = string y ! j XOR word_of_nat (unat (XORKEY seed) + unat (of_nat j :: 32 word))"
    using assms(1) by (rule transform_eq)
  finally show ?thesis using unat_of_nat32 [OF assms(3)] by simp
qed

lemma decrypt_last:
  assumes "unat (nb_chars y) < length (string y)"
  shows "string (decrypt sg seed y) ! unat (nb_chars y) = 0"
  using assms by (simp add: decrypt_def length_decrypt_loop)

lemma decrypt_frame:
  "length (string (decrypt sg seed y)) = length (string y)"
  "nb_chars (decrypt sg seed y) = nb_chars y"
  by (simp_all add: decrypt_def length_decrypt_loop)

lemma xor_mask_twice: "(c XOR m) XOR m = (c :: 'a::len word)"
  by (simp add: xor.assoc)

lemma xor_mask_neq: "(c XOR m = (c :: 'a::len word)) = (m = 0)"
  by (metis xor.right_neutral xor_mask_twice xor.commute)

section \<open>Round trip and buffer contents\<close>

text \<open>
  C1: for a plaintext \<open>s\<close> of \<open>size\<close> characters whose last one is the terminator,
  constructing the object and calling \<^verbatim>\<open>decrypt()\<close> once yields a buffer equal to \<open>s\<close>,
  for every seed and every character width up to 32 bits.
\<close>

theorem round_trip:
  fixes s :: "'a::len word list"
  assumes "LENGTH('a) \<le> 32"
    and "Xor_string_ctor sg seed sz s = Some x"
    and "length s = unat sz"
    and "s ! (unat sz - 1) = 0"
  shows "string (decrypt sg seed x) = s"
proof (rule nth_equalityI)
  note c = ctor_SomeD [OF assms(2)]
  show "length (string (decrypt sg seed x)) = length s"
    using c(5) assms(3) by (simp add: decrypt_frame)
  fix j assume "j < length (string (decrypt sg seed x))"
  then have j: "j < unat sz" using c(5) by (simp add: decrypt_frame)
  have wf: "unat (nb_chars x) < length (string x)" using c(5,6,7) by simp
  show "string (decrypt sg seed x) ! j = s ! j"
  proof (cases "j < unat sz - 1")
    case True
    then have "string (decrypt sg seed x) ! j =
               string x ! j XOR word_of_nat (unat (XORKEY seed) + j)"
      using decrypt_nth [OF assms(1) wf] c(6) by simp
    then show ?thesis
      using ctor_nth [OF assms(1,2) j] by (simp add: xor_mask_twice)
  next
    case False
    with j have "j = unat (nb_chars x)" using c(6) by simp
    then show ?thesis using decrypt_last [OF wf] assms(4) c(6) by simp
  qed
qed


text \<open>
  The default key and two constructed objects: the narrow literal \<^verbatim>\<open>"Hello"\<close> and a
  wide literal of two 16-bit characters.
\<close>

lemma XORKEY_default: "XORKEY TBX_XSTR_SEED = 184"
  by (simp add: XORKEY_def XSTR_RANDOM_NUMBER_def Random_def TBX_XSTR_SEED_def
        linear_congruent_generator.simps)

lemma replicate_6: "replicate 6 x = [x, x, x, x, x, x]"
  by (simp add: numeral_eq_Suc)

lemma replicate_3: "replicate 3 x = [x, x, x]"
  by (simp add: numeral_eq_Suc)

lemma ctor_Hello:
  "Xor_string_ctor True TBX_XSTR_SEED 6 [72, 101, 108, 108, 111, 0 :: 8 word] =
     Some \<lparr>nb_chars = 5, string = [240, 220, 214, 215, 211, 189]\<rparr>"
  by (simp add: Xor_string_ctor_def Xor_string_loop.simps encrypt_character_def promote_def
        XORKEY_default replicate_6)

lemma ctor_wide:
  "Xor_string_ctor False TBX_XSTR_SEED 3 [0x416, 0x20AC, 0 :: 16 word] =
     Some \<lparr>nb_chars = 2, string = [0x4AE, 0x2015, 186]\<rparr>"
  by (simp add: Xor_string_ctor_def Xor_string_loop.simps encrypt_character_def promote_def
        XORKEY_default replicate_3)

theorem round_trip_witness:
  "string (decrypt True TBX_XSTR_SEED
             \<lparr>nb_chars = 5, string = [240, 220, 214, 215, 211, 189 :: 8 word]\<rparr>)
     = [72, 101, 108, 108, 111, 0]"
  by (rule round_trip [OF _ ctor_Hello]) simp_all

text \<open>
  C3: for every index \<open>i\<close> in \<open>[0, size - 1)\<close> the constructed buffer holds
  \<open>plaintext[i] XOR (XORKEY + i)\<close> at element \<open>i\<close>, the mask being \<open>XORKEY + i\<close> reduced
  to the character's width (modulo \<open>2 ^ 8\<close> for \<^verbatim>\<open>char\<close>, modulo \<open>2 ^ 16\<close> or
  \<open>2 ^ 32\<close> for \<^verbatim>\<open>wchar_t\<close>).
\<close>

theorem ciphertext_state:
  fixes s :: "'a::len word list"
  assumes "LENGTH('a) \<le> 32"
    and "Xor_string_ctor sg seed sz s = Some x"
    and "i < unat sz - 1"
  shows "string x ! i = s ! i XOR word_of_nat (unat (XORKEY seed) + i) \<and>
         unat (word_of_nat (unat (XORKEY seed) + i) :: 'a word)
           = (unat (XORKEY seed) + i) mod 2 ^ LENGTH('a)"
proof -
  from assms(3) have "i < unat sz" by simp
  then have "string x ! i = s ! i XOR word_of_nat (unat (XORKEY seed) + i)"
    by (rule ctor_nth [OF assms(1,2)])
  moreover have "unat (word_of_nat (unat (XORKEY seed) + i) :: 'a word)
           = (unat (XORKEY seed) + i) mod 2 ^ LENGTH('a)"
    by (rule unat_of_nat)
  ultimately show ?thesis by (rule conjI)
qed

theorem ciphertext_state_witness:
  "string \<lparr>nb_chars = 5, string = [240, 220, 214, 215, 211, 189 :: 8 word]\<rparr> ! 1
     = [72, 101, 108, 108, 111, 0] ! 1 XOR word_of_nat (unat (XORKEY TBX_XSTR_SEED) + 1) \<and>
   unat (word_of_nat (unat (XORKEY TBX_XSTR_SEED) + 1) :: 8 word)
     = (unat (XORKEY TBX_XSTR_SEED) + 1) mod 2 ^ LENGTH(8)"
  by (rule ciphertext_state [OF _ ctor_Hello]) simp_all

text \<open>
  C4: after \<^verbatim>\<open>decrypt()\<close> on a constructed object of size \<open>size\<close>, element
  \<open>size - 1\<close> of the buffer is the terminator \<open>0\<close>, whatever value \<open>v\<close> that slot held
  before the call; the buffer keeps its length and its first \<open>size - 1\<close> elements are
  those of the plaintext, so the string ends where the plaintext did.
\<close>

theorem terminator_written:
  fixes s :: "'a::len word list"
  assumes "LENGTH('a) \<le> 32"
    and "Xor_string_ctor sg seed sz s = Some x"
  shows "string (decrypt sg seed (x\<lparr>string := (string x)[unat sz - 1 := v]\<rparr>)) ! (unat sz - 1) = 0 \<and>
         length (string (decrypt sg seed (x\<lparr>string := (string x)[unat sz - 1 := v]\<rparr>))) = unat sz \<and>
         take (unat sz - 1) (string (decrypt sg seed (x\<lparr>string := (string x)[unat sz - 1 := v]\<rparr>)))
           = take (unat sz - 1) s"
proof -
  note c = ctor_SomeD [OF assms(2)]
  let ?x = "x\<lparr>string := (string x)[unat sz - 1 := v]\<rparr>"
  have wf: "unat (nb_chars ?x) < length (string ?x)" using c(5,6,7) by simp
  have nb: "unat (nb_chars ?x) = unat sz - 1" using c(6) by simp
  have last: "string (decrypt sg seed ?x) ! (unat sz - 1) = 0"
    using decrypt_last [OF wf, of sg seed] nb by simp
  have len: "length (string (decrypt sg seed ?x)) = unat sz"
    using c(5) by (simp add: decrypt_frame)
  have "take (unat sz - 1) (string (decrypt sg seed ?x)) = take (unat sz - 1) s"
  proof (rule nth_equalityI)
    show "length (take (unat sz - 1) (string (decrypt sg seed ?x))) = length (take (unat sz - 1) s)"
      using len c(2) by simp
    fix j assume "j < length (take (unat sz - 1) (string (decrypt sg seed ?x)))"
    then have j: "j < unat sz - 1" by simp
    then have j': "j < unat sz" by simp
    have "string (decrypt sg seed ?x) ! j = string ?x ! j XOR word_of_nat (unat (XORKEY seed) + j)"
      using decrypt_nth [OF assms(1) wf, of j sg seed] j nb by simp
    also have "string ?x ! j = string x ! j" using j by simp
    also have "\<dots> = s ! j XOR word_of_nat (unat (XORKEY seed) + j)"
      by (rule ctor_nth [OF assms(1,2) j'])
    finally show "take (unat sz - 1) (string (decrypt sg seed ?x)) ! j = take (unat sz - 1) s ! j"
      using j by (simp add: xor_mask_twice)
  qed
  with last len show ?thesis by simp
qed

theorem terminator_written_witness:
  "string (decrypt True TBX_XSTR_SEED
      (\<lparr>nb_chars = 5, string = [240, 220, 214, 215, 211, 189 :: 8 word]\<rparr>
         \<lparr>string := (string \<lparr>nb_chars = 5, string = [240, 220, 214, 215, 211, 189 :: 8 word]\<rparr>)
                      [unat (6 :: 32 word) - 1 := 65]\<rparr>)) ! (unat (6 :: 32 word) - 1) = 0 \<and>
   length (string (decrypt True TBX_XSTR_SEED
      (\<lparr>nb_chars = 5, string = [240, 220, 214, 215, 211, 189 :: 8 word]\<rparr>
         \<lparr>string := (string \<lparr>nb_chars = 5, string = [240, 220, 214, 215, 211, 189 :: 8 word]\<rparr>)
                      [unat (6 :: 32 word) - 1 := 65]\<rparr>))) = unat (6 :: 32 word) \<and>
   take (unat (6 :: 32 word) - 1) (string (decrypt True TBX_XSTR_SEED
      (\<lparr>nb_chars = 5, string = [240, 220, 214, 215, 211, 189 :: 8 word]\<rparr>
         \<lparr>string := (string \<lparr>nb_chars = 5, string = [240, 220, 214, 215, 211, 189 :: 8 word]\<rparr>)
                      [unat (6 :: 32 word) - 1 := 65]\<rparr>)))
     = take (unat (6 :: 32 word) - 1) [72, 101, 108, 108, 111, 0]"
  by (rule terminator_written [OF _ ctor_Hello]) simp

text \<open>
  C5: on a constructed object the first \<^verbatim>\<open>decrypt()\<close> yields the plaintext character
  at every index \<open>i\<close> in \<open>[0, size - 1)\<close>, and a second \<^verbatim>\<open>decrypt()\<close> on the same
  object applies the mask to that plaintext again: it leaves
  \<open>plaintext[i] XOR (XORKEY + i)\<close> there, which differs from what the first call produced,
  that is from the plaintext character, exactly where the mask is nonzero at the
  character's width. \<^verbatim>\<open>decrypt\<close> has no failure result: the second call returns a
  buffer of the same length like the first.
\<close>

theorem double_decrypt:
  fixes s :: "'a::len word list"
  assumes "LENGTH('a) \<le> 32"
    and "Xor_string_ctor sg seed sz s = Some x"
    and "i < unat sz - 1"
  shows "string (decrypt sg seed x) ! i = s ! i \<and>
         string (decrypt sg seed (decrypt sg seed x)) ! i
           = string (decrypt sg seed x) ! i XOR word_of_nat (unat (XORKEY seed) + i) \<and>
         (string (decrypt sg seed (decrypt sg seed x)) ! i \<noteq> string (decrypt sg seed x) ! i)
           = (word_of_nat (unat (XORKEY seed) + i) \<noteq> (0 :: 'a word)) \<and>
         string (decrypt sg seed (decrypt sg seed x)) ! i
           = s ! i XOR word_of_nat (unat (XORKEY seed) + i) \<and>
         (string (decrypt sg seed (decrypt sg seed x)) ! i \<noteq> s ! i)
           = (word_of_nat (unat (XORKEY seed) + i) \<noteq> (0 :: 'a word)) \<and>
         length (string (decrypt sg seed (decrypt sg seed x))) = unat sz"
proof -
  note c = ctor_SomeD [OF assms(2)]
  let ?m = "word_of_nat (unat (XORKEY seed) + i) :: 'a word"
  have i: "i < unat sz" using assms(3) by simp
  have wf: "unat (nb_chars x) < length (string x)" using c(5,6,7) by simp
  have wf': "unat (nb_chars (decrypt sg seed x)) < length (string (decrypt sg seed x))"
    using wf by (simp add: decrypt_frame)
  have once: "string (decrypt sg seed x) ! i = s ! i"
    using decrypt_nth [OF assms(1) wf, of i sg seed] ctor_nth [OF assms(1,2) i] assms(3) c(6)
    by (simp add: xor_mask_twice)
  have again: "string (decrypt sg seed (decrypt sg seed x)) ! i
                 = string (decrypt sg seed x) ! i XOR ?m"
    using decrypt_nth [OF assms(1) wf', of i sg seed] assms(3) c(6) by (simp add: decrypt_frame)
  have changed: "(string (decrypt sg seed (decrypt sg seed x)) ! i
                    \<noteq> string (decrypt sg seed x) ! i) = (?m \<noteq> 0)"
    by (simp only: again xor_mask_neq)
  have twice: "string (decrypt sg seed (decrypt sg seed x)) ! i = s ! i XOR ?m"
    using again once by simp
  have corrupt: "(string (decrypt sg seed (decrypt sg seed x)) ! i \<noteq> s ! i) = (?m \<noteq> 0)"
    by (simp only: twice xor_mask_neq)
  have len: "length (string (decrypt sg seed (decrypt sg seed x))) = unat sz"
    using c(5) by (simp add: decrypt_frame)
  from once again changed twice corrupt len show ?thesis by blast
qed

theorem double_decrypt_witness:
  "string (decrypt False TBX_XSTR_SEED
             \<lparr>nb_chars = 2, string = [0x4AE, 0x2015, 186 :: 16 word]\<rparr>) ! 0
     = [0x416, 0x20AC, 0] ! 0 \<and>
   string (decrypt False TBX_XSTR_SEED (decrypt False TBX_XSTR_SEED
             \<lparr>nb_chars = 2, string = [0x4AE, 0x2015, 186 :: 16 word]\<rparr>)) ! 0
     = string (decrypt False TBX_XSTR_SEED
             \<lparr>nb_chars = 2, string = [0x4AE, 0x2015, 186 :: 16 word]\<rparr>) ! 0
         XOR word_of_nat (unat (XORKEY TBX_XSTR_SEED) + 0) \<and>
   (string (decrypt False TBX_XSTR_SEED (decrypt False TBX_XSTR_SEED
             \<lparr>nb_chars = 2, string = [0x4AE, 0x2015, 186 :: 16 word]\<rparr>)) ! 0
      \<noteq> string (decrypt False TBX_XSTR_SEED
             \<lparr>nb_chars = 2, string = [0x4AE, 0x2015, 186 :: 16 word]\<rparr>) ! 0)
     = (word_of_nat (unat (XORKEY TBX_XSTR_SEED) + 0) \<noteq> (0 :: 16 word)) \<and>
   string (decrypt False TBX_XSTR_SEED (decrypt False TBX_XSTR_SEED
             \<lparr>nb_chars = 2, string = [0x4AE, 0x2015, 186 :: 16 word]\<rparr>)) ! 0
     = [0x416, 0x20AC, 0] ! 0 XOR word_of_nat (unat (XORKEY TBX_XSTR_SEED) + 0) \<and>
   (string (decrypt False TBX_XSTR_SEED (decrypt False TBX_XSTR_SEED
             \<lparr>nb_chars = 2, string = [0x4AE, 0x2015, 186 :: 16 word]\<rparr>)) ! 0
      \<noteq> [0x416, 0x20AC, 0] ! 0)
     = (word_of_nat (unat (XORKEY TBX_XSTR_SEED) + 0) \<noteq> (0 :: 16 word)) \<and>
   length (string (decrypt False TBX_XSTR_SEED (decrypt False TBX_XSTR_SEED
             \<lparr>nb_chars = 2, string = [0x4AE, 0x2015, 186 :: 16 word]\<rparr>)))
     = unat (3 :: 32 word)"
  by (rule double_decrypt [OF _ ctor_wide]) simp_all

section \<open>Non-triviality, reproducibility and the terminator slot\<close>

lemma word_of_nat_zero_mod:
  "((word_of_nat n :: 'a::len word) = 0) = (n mod 2 ^ LENGTH('a) = 0)"
  by (simp add: word_of_nat_eq_0_iff dvd_eq_mod_eq_0)

text \<open>
  C6: the constructed buffer differs from the plaintext at every index \<open>i\<close> in
  \<open>[0, size - 1)\<close> with \<open>(XORKEY + i) mod 256 \<noteq> 0\<close>, for characters of 8 to 32
  bits. This needs no assumption on the plaintext, so it holds for the non-empty,
  not all-zero ones in particular.
\<close>

theorem nontrivial_ciphertext:
  fixes s :: "'a::len word list"
  assumes "LENGTH('a) \<le> 32" and "8 \<le> LENGTH('a)"
    and "Xor_string_ctor sg seed sz s = Some x"
    and "i < unat sz - 1"
    and "(unat (XORKEY seed) + i) mod 256 \<noteq> 0"
  shows "string x ! i \<noteq> s ! i"
proof -
  let ?n = "unat (XORKEY seed) + i"
  have i: "i < unat sz" using assms(4) by simp
  have "(2::nat) ^ 8 dvd 2 ^ LENGTH('a)" using assms(2) by (rule le_imp_power_dvd)
  moreover have "\<not> (2::nat) ^ 8 dvd ?n" using assms(5) by (simp add: dvd_eq_mod_eq_0)
  ultimately have "\<not> 2 ^ LENGTH('a) dvd ?n" using dvd_trans by blast
  then have "(word_of_nat ?n :: 'a word) \<noteq> 0" by (simp only: word_of_nat_eq_0_iff not_False_eq_True)
  then show ?thesis
    using ctor_nth [OF assms(1,3) i] by (simp only: xor_mask_neq not_False_eq_True)
qed

theorem nontrivial_ciphertext_witness:
  "string \<lparr>nb_chars = 5, string = [240, 220, 214, 215, 211, 189 :: 8 word]\<rparr> ! 4
     \<noteq> [72, 101, 108, 108, 111, 0] ! 4"
  by (rule nontrivial_ciphertext [OF _ _ ctor_Hello]) (simp_all add: XORKEY_default)

lemma Xor_string_loop_signedness:
  "Xor_string_loop sg seed sz str i buf = Xor_string_loop sg' seed sz str i buf"
proof (induction sg seed sz str i buf rule: Xor_string_loop.induct)
  case (1 sg seed sz str i buf)
  show ?case
  proof (cases "i < sz")
    case True
    have "Xor_string_loop sg seed sz str i buf =
          Xor_string_loop sg' seed sz str (i + 1)
            (buf[unat i := encrypt_character sg seed (str ! unat i) i])"
      using True "1.IH" [OF True] by (subst Xor_string_loop.simps) simp
    also have "\<dots> = Xor_string_loop sg' seed sz str (i + 1)
            (buf[unat i := encrypt_character sg' seed (str ! unat i) i])"
      by (simp only: encrypt_character_signedness [of sg seed _ _ sg'])
    also have "\<dots> = Xor_string_loop sg' seed sz str i buf"
      using True by (subst (2) Xor_string_loop.simps) simp
    finally show ?thesis .
  next
    case False
    then show ?thesis
      by (subst Xor_string_loop.simps, subst (2) Xor_string_loop.simps) simp
  qed
qed

text \<open>
  C8: the generator's output and the key are functions of the seed and the round count
  alone, and the constructed object is a function of the seed and the plaintext alone:
  equal inputs give equal results, also between two builds that differ in the
  implementation-defined signedness of the character type.
\<close>

theorem determinism:
  assumes "seed = seed'" and "rounds = rounds'" and "s = s'"
  shows "linear_congruent_generator seed rounds = linear_congruent_generator seed' rounds' \<and>
         XORKEY seed = XORKEY seed' \<and>
         Xor_string_ctor sg seed sz s = Xor_string_ctor sg' seed' sz s'"
  using assms
  by (simp add: Xor_string_ctor_def Xor_string_loop_signedness [of sg _ _ _ _ _ sg'])

theorem determinism_witness:
  "linear_congruent_generator TBX_XSTR_SEED 10 = linear_congruent_generator TBX_XSTR_SEED 10 \<and>
   XORKEY TBX_XSTR_SEED = XORKEY TBX_XSTR_SEED \<and>
   Xor_string_ctor True TBX_XSTR_SEED 3 [72, 105, 0 :: 8 word]
     = Xor_string_ctor False TBX_XSTR_SEED 3 [72, 105, 0]"
  by (rule determinism [OF refl refl refl])

text \<open>
  C10: the constructor's loop covers index \<open>size - 1\<close> as well, so for a plaintext ending
  in the terminator the stored element there is \<open>0 XOR (XORKEY + (size - 1))\<close> at the
  character's width, which is nonzero exactly when \<open>XORKEY + (size - 1)\<close> is not a
  multiple of \<open>2 ^ LENGTH('a)\<close>. The loop of \<^verbatim>\<open>decrypt()\<close> stops before that index
  and leaves the stored value in place; the \<open>0\<close> found there afterwards is the one
  \<^verbatim>\<open>decrypt()\<close> writes explicitly.
\<close>

theorem terminator_encrypted:
  fixes s :: "'a::len word list"
  assumes "LENGTH('a) \<le> 32"
    and "Xor_string_ctor sg seed sz s = Some x"
    and "s ! (unat sz - 1) = 0"
  shows "string x ! (unat sz - 1) = word_of_nat (unat (XORKEY seed) + (unat sz - 1)) \<and>
         (string x ! (unat sz - 1) \<noteq> 0)
           = ((unat (XORKEY seed) + (unat sz - 1)) mod 2 ^ LENGTH('a) \<noteq> 0) \<and>
         decrypt_loop sg seed (nb_chars x) 0 (string x) ! (unat sz - 1)
           = string x ! (unat sz - 1) \<and>
         string (decrypt sg seed x) ! (unat sz - 1) = 0"
proof -
  note c = ctor_SomeD [OF assms(2)]
  have j: "unat sz - 1 < unat sz" using c(7) by simp
  have wf: "unat (nb_chars x) < length (string x)" using c(5,6,7) by simp
  have stored: "string x ! (unat sz - 1) = word_of_nat (unat (XORKEY seed) + (unat sz - 1))"
    using ctor_nth [OF assms(1,2) j] assms(3) by simp
  have nonzero: "(string x ! (unat sz - 1) \<noteq> 0)
           = ((unat (XORKEY seed) + (unat sz - 1)) mod 2 ^ LENGTH('a) \<noteq> 0)"
    by (simp only: stored word_of_nat_zero_mod)
  have untouched: "decrypt_loop sg seed (nb_chars x) 0 (string x) ! (unat sz - 1)
           = string x ! (unat sz - 1)"
    using wf c(6) by (simp add: nth_decrypt_loop)
  have overwritten: "string (decrypt sg seed x) ! (unat sz - 1) = 0"
    using decrypt_last [OF wf, of sg seed] c(6) by simp
  from stored nonzero untouched overwritten show ?thesis by blast
qed

theorem terminator_encrypted_witness:
  "string \<lparr>nb_chars = 5, string = [240, 220, 214, 215, 211, 189 :: 8 word]\<rparr> ! (unat (6 :: 32 word) - 1)
     = word_of_nat (unat (XORKEY TBX_XSTR_SEED) + (unat (6 :: 32 word) - 1)) \<and>
   (string \<lparr>nb_chars = 5, string = [240, 220, 214, 215, 211, 189 :: 8 word]\<rparr> ! (unat (6 :: 32 word) - 1) \<noteq> 0)
     = ((unat (XORKEY TBX_XSTR_SEED) + (unat (6 :: 32 word) - 1)) mod 2 ^ LENGTH(8) \<noteq> 0) \<and>
   decrypt_loop True TBX_XSTR_SEED
       (nb_chars \<lparr>nb_chars = 5, string = [240, 220, 214, 215, 211, 189 :: 8 word]\<rparr>) 0
       (string \<lparr>nb_chars = 5, string = [240, 220, 214, 215, 211, 189 :: 8 word]\<rparr>) ! (unat (6 :: 32 word) - 1)
     = string \<lparr>nb_chars = 5, string = [240, 220, 214, 215, 211, 189 :: 8 word]\<rparr> ! (unat (6 :: 32 word) - 1) \<and>
   string (decrypt True TBX_XSTR_SEED
             \<lparr>nb_chars = 5, string = [240, 220, 214, 215, 211, 189 :: 8 word]\<rparr>) ! (unat (6 :: 32 word) - 1) = 0"
  by (rule terminator_encrypted [OF _ ctor_Hello]) simp_all

end
